theory Spec2Isabelle
  imports Main "HOL-Library.Sublist"
begin

section \<open>The filesystem seen by the finders\<close>

text \<open>
  The finders of \<^verbatim>\<open>setuptools/discovery.py\<close> only read the filesystem: they list
  directories (\<^verbatim>\<open>os.walk\<close>, \<^verbatim>\<open>glob\<close>) and ask whether a path is a regular file
  (\<^verbatim>\<open>os.path.isfile\<close>). A snapshot of the tree below the current directory is therefore all
  the state there is. A directory is the list of its entries in the order in which the operating
  system lists them; a symbolic link stands for its target, since both \<^verbatim>\<open>os.walk\<close> (called
  with \<^verbatim>\<open>followlinks=True\<close>) and \<^verbatim>\<open>os.path.isfile\<close> follow links; \<open>Other\<close> is an entry that is
  neither a directory nor a regular file (a broken link, a socket, a device). The tree is
  finite, so a cycle of symbolic links is outside the model.

  The snapshot \<open>fs\<close> is the tree below the current directory, and \<^verbatim>\<open>where\<close> is a relative
  path given as the list \<open>where_path\<close> of the names it is made of; the default \<^verbatim>\<open>'.'\<close> is the
  empty list. \<^verbatim>\<open>os.walk\<close> takes these names literally, \<^verbatim>\<open>glob\<close> reads them as patterns.

  Names are strings of bytes, paths are POSIX paths (\<^verbatim>\<open>os.path.sep\<close> is \<open>/\<close>). An entry name of a
  real directory is not empty and holds no \<open>/\<close>; the model takes \<^verbatim>\<open>os.path.join(root, dir)\<close>
  apart again as the source's \<^verbatim>\<open>relpath\<close> and \<^verbatim>\<open>basename\<close> do for such names.
\<close>

datatype node = File | Other | Dir "(string \<times> node) list"

fun is_dir :: "node \<Rightarrow> bool" where
  "is_dir (Dir _) = True"
| "is_dir _ = False"

type_synonym name_filter = "string \<Rightarrow> bool"

text \<open>The node that a relative path names, each name taken literally.\<close>

fun resolve :: "node \<Rightarrow> string list \<Rightarrow> node option" where
  "resolve t [] = Some t"
| "resolve (Dir entries) (s # ss) =
     (case map_of entries s of Some n \<Rightarrow> resolve n ss | None \<Rightarrow> None)"
| "resolve _ (s # ss) = None"

text \<open>The nodes found below a node by following a chain of entry names.\<close>

fun nodes_at :: "node \<Rightarrow> string list \<Rightarrow> node list" where
  "nodes_at t [] = [t]"
| "nodes_at (Dir entries) (s # ss) =
     concat (map (\<lambda>(name, n). if name = s then nodes_at n ss else []) entries)"
| "nodes_at _ (s # ss) = []"

section \<open>Library functions the finders call\<close>

subsection \<open>Paths\<close>

definition os_path_sep :: char where
  "os_path_sep = CHR ''/''"

text \<open>\<^verbatim>\<open>sep.join(parts)\<close>.\<close>

fun join :: "string \<Rightarrow> string list \<Rightarrow> string" where
  "join sep [] = []"
| "join sep [x] = x"
| "join sep (x # y # ys) = x @ sep @ join sep (y # ys)"

text \<open>
  \<^verbatim>\<open>os.path.relpath(full_path, where)\<close> for the directory reached from \<^verbatim>\<open>where\<close> through the
  directories \<open>parts\<close>.
\<close>

definition relpath :: "string list \<Rightarrow> string" where
  "relpath parts = join [os_path_sep] parts"

text \<open>\<^verbatim>\<open>s.replace(old, new)\<close> for one-character \<open>old\<close> and \<open>new\<close>.\<close>

definition replace :: "char \<Rightarrow> char \<Rightarrow> string \<Rightarrow> string" where
  "replace old new s = map (\<lambda>c. if c = old then new else c) s"

text \<open>\<^verbatim>\<open>os.path.basename\<close>: what follows the last separator.\<close>

definition basename :: "string \<Rightarrow> string" where
  "basename p = rev (takeWhile (\<lambda>c. c \<noteq> os_path_sep) (rev p))"

text \<open>\<^verbatim>\<open>s.rfind(c)\<close>: the highest index of \<open>c\<close> in \<open>s\<close>, or \<open>-1\<close>.\<close>

fun rfind :: "string \<Rightarrow> char \<Rightarrow> int" where
  "rfind [] c = -1"
| "rfind (x # xs) c =
     (let r = rfind xs c in if 0 \<le> r then r + 1 else if x = c then 0 else -1)"

text \<open>
  \<^verbatim>\<open>os.path.splitext\<close> (\<^verbatim>\<open>genericpath._splitext\<close> with separator \<open>/\<close> and extension separator
  \<open>.\<close>): split at the last dot, unless that dot is not after the last separator or only dots
  stand between the separator and it.
\<close>

definition splitext :: "string \<Rightarrow> string \<times> string" where
  "splitext p =
     (let sepIndex = rfind p os_path_sep;
          dotIndex = rfind p (CHR ''.'')
      in if sepIndex < dotIndex \<and>
            (\<exists>c \<in> set (drop (nat (sepIndex + 1)) (take (nat dotIndex) p)). c \<noteq> CHR ''.'')
         then (take (nat dotIndex) p, drop (nat dotIndex) p)
         else (p, []))"

subsection \<open>Identifiers\<close>

text \<open>
  \<^verbatim>\<open>str.isidentifier\<close> on ASCII names: a letter or underscore, then letters, digits and
  underscores. Bytes beyond ASCII are not counted as letters.
\<close>

definition is_letter :: "char \<Rightarrow> bool" where
  "is_letter c =
     (let n = (of_char c :: nat) in (65 \<le> n \<and> n \<le> 90) \<or> (97 \<le> n \<and> n \<le> 122) \<or> n = 95)"

definition is_digit :: "char \<Rightarrow> bool" where
  "is_digit c = (let n = (of_char c :: nat) in 48 \<le> n \<and> n \<le> 57)"

fun isidentifier :: "string \<Rightarrow> bool" where
  "isidentifier [] = False"
| "isidentifier (c # cs) = (is_letter c \<and> list_all (\<lambda>x. is_letter x \<or> is_digit x) cs)"

subsection \<open>Shell patterns\<close>

text \<open>
  \<^verbatim>\<open>fnmatch.fnmatchcase(name, pat)\<close> of the standard library: \<open>*\<close> matches any run of
  characters, \<open>?\<close> one character, \<open>[seq]\<close> one character of \<open>seq\<close>, \<open>[!seq]\<close> one character
  not in \<open>seq\<close>, where \<open>seq\<close> lists characters and ranges \<open>a-z\<close>; any other character matches
  itself, and the whole name has to match. As in \<^verbatim>\<open>fnmatch.translate\<close>, a \<open>]\<close> right after
  \<open>[\<close> or \<open>[!\<close> belongs to \<open>seq\<close>, and a \<open>[\<close> with no closing \<open>]\<close> is an ordinary character. A
  range whose bounds are in the wrong order holds no character.
\<close>

datatype class_item = Single char | Range char char

datatype glob_tok = STAR | ANY | LIT char | SET bool "class_item list"

fun class_items :: "string \<Rightarrow> class_item list" where
  "class_items (c # x # d # rest) =
     (if x = CHR ''-'' then Range c d # class_items rest
      else Single c # class_items (x # d # rest))"
| "class_items (c # rest) = Single c # class_items rest"
| "class_items [] = []"

fun item_matches :: "char \<Rightarrow> class_item \<Rightarrow> bool" where
  "item_matches x (Single c) = (x = c)"
| "item_matches x (Range lo hi) =
     ((of_char lo :: nat) \<le> of_char x \<and> (of_char x :: nat) \<le> of_char hi)"

text \<open>
  The text after a \<open>[\<close>: the contents of the bracket expression and what follows its closing
  \<open>]\<close>, or \<open>None\<close> when the bracket is never closed.
\<close>

definition bracket_split :: "string \<Rightarrow> (string \<times> string) option" where
  "bracket_split s =
     (let (p1, s1) = (case s of c # t \<Rightarrow> if c = CHR ''!'' then ([c], t) else ([], s) | [] \<Rightarrow> ([], s));
          (p2, s2) = (case s1 of c # t \<Rightarrow> if c = CHR '']'' then ([c], t) else ([], s1) | [] \<Rightarrow> ([], s1));
          stuff = p1 @ p2 @ takeWhile (\<lambda>c. c \<noteq> CHR '']'') s2;
          after = dropWhile (\<lambda>c. c \<noteq> CHR '']'') s2
      in case after of [] \<Rightarrow> None | _ # rest \<Rightarrow> Some (stuff, rest))"

definition bracket_tok :: "string \<Rightarrow> glob_tok" where
  "bracket_tok stuff =
     (case stuff of
        c # t \<Rightarrow> if c = CHR ''!'' then SET True (class_items t) else SET False (class_items stuff)
      | [] \<Rightarrow> SET False [])"

function translate :: "string \<Rightarrow> glob_tok list" where
  "translate [] = []"
| "translate (c # pat) =
     (if c = CHR ''*'' then STAR # translate pat
      else if c = CHR ''?'' then ANY # translate pat
      else if c = CHR ''['' then
        (case bracket_split pat of
           None \<Rightarrow> LIT c # translate pat
         | Some (stuff, rest) \<Rightarrow> bracket_tok stuff # translate rest)
      else LIT c # translate pat)"
  by pat_completeness auto
termination
proof -
  have shorter: "length rest < Suc (length s)"
    if split: "bracket_split s = Some (stuff, rest)" for s stuff rest
  proof -
    from split obtain s2 c where after: "dropWhile (\<lambda>c. c \<noteq> CHR '']'') s2 = c # rest"
      and len: "length s2 \<le> length s"
      by (auto simp: bracket_split_def Let_def split: list.splits if_splits prod.splits)
    have "length (c # rest) \<le> length s2"
      using length_dropWhile_le [of "\<lambda>c. c \<noteq> CHR '']''" s2] after by simp
    with len show ?thesis by simp
  qed
  show ?thesis
    by (relation "measure length") (auto dest: shorter)
qed

fun glob_match :: "glob_tok list \<Rightarrow> string \<Rightarrow> bool" where
  "glob_match [] s = (s = [])"
| "glob_match (STAR # ps) [] = glob_match ps []"
| "glob_match (STAR # ps) (x # s) = (glob_match ps (x # s) \<or> glob_match (STAR # ps) s)"
| "glob_match (ANY # ps) [] = False"
| "glob_match (ANY # ps) (x # s) = glob_match ps s"
| "glob_match (LIT c # ps) [] = False"
| "glob_match (LIT c # ps) (x # s) = (x = c \<and> glob_match ps s)"
| "glob_match (SET neg items # ps) [] = False"
| "glob_match (SET neg items # ps) (x # s) =
     ((list_ex (item_matches x) items \<noteq> neg) \<and> glob_match ps s)"

definition fnmatchcase :: "string \<Rightarrow> string \<Rightarrow> bool" where
  "fnmatchcase name pat = glob_match (translate pat) name"

text \<open>
  \<^verbatim>\<open>glob.glob(os.path.join(where, pattern))\<close> of the standard library, for a pattern with a
  wildcard and no separator. \<^verbatim>\<open>glob\<close> reads every component of the path as a pattern, those of
  \<^verbatim>\<open>where\<close> too:
  \<^item> \<^verbatim>\<open>has_magic\<close>: a component with \<open>*\<close>, \<open>?\<close> or \<open>[\<close> is matched against the entries of the
    directories reached so far (\<^verbatim>\<open>_glob1\<close>); a name starting with a dot is only matched by a
    pattern starting with a dot, and inside \<^verbatim>\<open>where\<close> only directories are kept (\<open>dironly\<close>);
  \<^item> any other component is looked up as it is (\<^verbatim>\<open>_glob0\<close>, or a literal prefix of the path);
  \<^item> what is not a directory, or does not exist, lists as nothing.

  \<open>glob_dirs fs where_path\<close> are the directories that \<^verbatim>\<open>where\<close> expands to, in the order in
  which \<^verbatim>\<open>glob\<close> visits them, and \<open>glob\<close> gives each path it returns by its last component, which
  is all that \<^verbatim>\<open>_find_iter\<close> reads of it (\<^verbatim>\<open>os.path.basename(file)\<close>).
\<close>

definition has_magic :: "string \<Rightarrow> bool" where
  "has_magic s = (\<exists>c \<in> set s. c = CHR ''*'' \<or> c = CHR ''?'' \<or> c = CHR ''['')"

fun ishidden :: "string \<Rightarrow> bool" where
  "ishidden [] = False"
| "ishidden (c # _) = (c = CHR ''.'')"

fun glob1 :: "node \<Rightarrow> string \<Rightarrow> bool \<Rightarrow> (string \<times> node) list" where
  "glob1 (Dir entries) pattern dironly =
     filter (\<lambda>(name, n). fnmatchcase name pattern)
       (filter (\<lambda>(name, n). ishidden pattern \<or> \<not> ishidden name)
          (filter (\<lambda>(name, n). \<not> dironly \<or> is_dir n) entries))"
| "glob1 _ pattern dironly = []"

fun glob0 :: "node \<Rightarrow> string \<Rightarrow> (string \<times> node) list" where
  "glob0 (Dir entries) name =
     (case map_of entries name of Some n \<Rightarrow> [(name, n)] | None \<Rightarrow> [])"
| "glob0 _ name = []"

fun glob_dirs :: "node \<Rightarrow> string list \<Rightarrow> node list" where
  "glob_dirs t [] = [t]"
| "glob_dirs t (c # cs) =
     concat (map (\<lambda>(name, n). glob_dirs n cs)
       (if has_magic c then glob1 t c True else glob0 t c))"

definition glob :: "node \<Rightarrow> string list \<Rightarrow> string \<Rightarrow> string list" where
  "glob fs where_path pattern =
     concat (map (\<lambda>dir. map fst (glob1 dir pattern False)) (glob_dirs fs where_path))"

section \<open>The finders\<close>

text \<open>
  The concrete classes. \<open>PEP420PackageFinder\<close> and \<open>FlatLayoutPackageFinder\<close> inherit
  \<^verbatim>\<open>_find_iter\<close> and \<^verbatim>\<open>ALWAYS_EXCLUDE\<close> from \<open>PackageFinder\<close>, \<open>FlatLayoutModuleFinder\<close>
  inherits \<^verbatim>\<open>_find_iter\<close> from \<open>ModuleFinder\<close>; all inherit \<^verbatim>\<open>find\<close> and \<^verbatim>\<open>_build_filter\<close>
  from \<^verbatim>\<open>_Finder\<close>.
\<close>

datatype package_finder = PackageFinder | PEP420PackageFinder | FlatLayoutPackageFinder

datatype module_finder = ModuleFinder | FlatLayoutModuleFinder

datatype finder = Packages package_finder | Modules module_finder

fun ALWAYS_EXCLUDE :: "finder \<Rightarrow> string list" where
  "ALWAYS_EXCLUDE (Packages _) = [''ez_setup'', ''*__pycache__'']"
| "ALWAYS_EXCLUDE (Modules _) = []"

fun DEFAULT_EXCLUDE :: "finder \<Rightarrow> string list" where
  "DEFAULT_EXCLUDE (Packages FlatLayoutPackageFinder) =
     [''doc'', ''docs'', ''test'', ''tests'', ''example'', ''examples'',
      ''tasks'', ''fabfile'', ''site_scons'', ''[._]*'']"
| "DEFAULT_EXCLUDE (Modules FlatLayoutModuleFinder) =
     [''setup'', ''conftest'', ''test'', ''tests'', ''example'', ''examples'',
      ''noxfile'', ''pavement'', ''dodo'', ''tasks'', ''fabfile'',
      ''[Ss][Cc]onstruct'', ''conanfile'', ''manage'', ''[._]*'']"
| "DEFAULT_EXCLUDE _ = []"

text \<open>\<^verbatim>\<open>_valid_name(path)\<close>.\<close>

definition valid_name :: "string \<Rightarrow> bool" where
  "valid_name path = isidentifier (basename path)"

text \<open>\<^verbatim>\<open>_build_filter(*patterns)\<close>.\<close>

definition build_filter :: "string list \<Rightarrow> name_filter" where
  "build_filter patterns = (\<lambda>name. \<exists>pat \<in> set patterns. fnmatchcase name pat)"

text \<open>
  \<^verbatim>\<open>cls._looks_like_package(full_path)\<close>, where \<open>dir\<close> is the last component of
  \<^verbatim>\<open>full_path\<close> and \<open>n\<close> the node there. \<^verbatim>\<open>os.path.isfile(os.path.join(path, '__init__.py'))\<close>
  holds when the directory has a regular file of that name.
\<close>

fun looks_like_package :: "package_finder \<Rightarrow> string \<Rightarrow> node \<Rightarrow> bool" where
  "looks_like_package PackageFinder dir n =
     (case n of Dir entries \<Rightarrow> (''__init__.py'', File) \<in> set entries | _ \<Rightarrow> False)"
| "looks_like_package PEP420PackageFinder dir n = True"
| "looks_like_package FlatLayoutPackageFinder dir n = valid_name dir"

text \<open>\<^verbatim>\<open>cls._looks_like_module(module)\<close>: both module finders use \<^verbatim>\<open>_valid_name\<close>.\<close>

fun looks_like_module :: "module_finder \<Rightarrow> string \<Rightarrow> bool" where
  "looks_like_module _ module = valid_name module"

text \<open>
  \<^verbatim>\<open>rel_path.replace(os.path.sep, '.')\<close> for the directory reached from \<^verbatim>\<open>where\<close> through
  \<open>parts\<close>.
\<close>

definition package :: "string list \<Rightarrow> string" where
  "package parts = replace os_path_sep (CHR ''.'') (relpath parts)"

text \<open>
  \<^verbatim>\<open>PackageFinder._find_iter\<close>. \<open>walk cls exclude include rel n\<close> is what the generator
  yields from the moment \<^verbatim>\<open>os.walk\<close> reaches the node \<open>n\<close>, found at \<open>rel\<close> below \<^verbatim>\<open>where\<close>.
  \<^verbatim>\<open>os.walk\<close> hands out the subdirectories of \<open>n\<close> as \<open>all_dirs\<close>; the loop body skips a
  directory with a dot in its name or failing \<^verbatim>\<open>_looks_like_package\<close> (the \<^verbatim>\<open>continue\<close>
  leaves it out of \<open>dirs\<close>), yields the package name of each other one that passes the two
  filters, and appends every directory it did not skip to \<open>dirs\<close>. Only then does
  \<^verbatim>\<open>os.walk\<close> go down into \<open>dirs\<close>, one after the other. What is not a directory is walked
  as nothing (\<^verbatim>\<open>os.walk\<close> swallows the error of listing it).
\<close>

fun walk :: "package_finder \<Rightarrow> name_filter \<Rightarrow> name_filter \<Rightarrow> string list \<Rightarrow> node \<Rightarrow> string list" where
  "walk cls exclude include rel (Dir entries) =
     (let all_dirs = filter (\<lambda>(dir, n). is_dir n) entries;
          dirs = filter (\<lambda>(dir, n). \<not> (CHR ''.'' \<in> set dir \<or> \<not> looks_like_package cls dir n)) all_dirs
      in concat (map (\<lambda>(dir, n).
                   if include (package (rel @ [dir])) \<and> \<not> exclude (package (rel @ [dir]))
                   then [package (rel @ [dir])] else []) dirs)
         @ concat (map (\<lambda>(dir, n). walk cls exclude include (rel @ [dir]) n) dirs))"
| "walk cls exclude include rel _ = []"

text \<open>
  \<^verbatim>\<open>os.walk(where, followlinks=True)\<close> starts at the node that \<^verbatim>\<open>where\<close> names and yields
  nothing when there is none.
\<close>

definition PackageFinder_find_iter ::
  "package_finder \<Rightarrow> node \<Rightarrow> string list \<Rightarrow> name_filter \<Rightarrow> name_filter \<Rightarrow> string list" where
  "PackageFinder_find_iter cls fs where_path exclude include =
     (case resolve fs where_path of
        Some where_dir \<Rightarrow> walk cls exclude include [] where_dir
      | None \<Rightarrow> [])"

text \<open>
  \<^verbatim>\<open>ModuleFinder._find_iter\<close>: the loop over \<^verbatim>\<open>glob(os.path.join(where, "*.py"))\<close>, where
  \<open>file\<close> stands for \<^verbatim>\<open>os.path.basename(file)\<close>.
\<close>

definition ModuleFinder_find_iter ::
  "module_finder \<Rightarrow> node \<Rightarrow> string list \<Rightarrow> name_filter \<Rightarrow> name_filter \<Rightarrow> string list" where
  "ModuleFinder_find_iter cls fs where_path exclude include =
     concat (map (\<lambda>file.
        let module = fst (splitext file)
        in if \<not> looks_like_module cls module then []
           else if include module \<and> \<not> exclude module then [module] else [])
       (glob fs where_path ''*.py''))"

fun find_iter ::
  "finder \<Rightarrow> node \<Rightarrow> string list \<Rightarrow> name_filter \<Rightarrow> name_filter \<Rightarrow> string list" where
  "find_iter (Packages cls) = PackageFinder_find_iter cls"
| "find_iter (Modules cls) = ModuleFinder_find_iter cls"

text \<open>
  \<^verbatim>\<open>_Finder.find(where, exclude, include)\<close> in the filesystem \<open>fs\<close>; \<^verbatim>\<open>convert_path\<close> leaves a
  POSIX path as it is. The defaults of the source are \<open>where_path = []\<close>, \<open>exclude = []\<close> and
  \<open>include = [''*'']\<close>.
\<close>

definition find' ::
  "finder \<Rightarrow> node \<Rightarrow> string list \<Rightarrow> string list \<Rightarrow> string list \<Rightarrow> string list" where
  "find' cls fs where_path exclude include =
     (let exclude = (if exclude = [] then DEFAULT_EXCLUDE cls else exclude)
      in find_iter cls fs where_path
           (build_filter (ALWAYS_EXCLUDE cls @ exclude))
           (build_filter include))"

section \<open>Notions used to state the properties\<close>

text \<open>
  The patterns of the exclude filter that \<^verbatim>\<open>find\<close> builds: the always-excluded ones, then the
  caller's, or the class's defaults when the caller gave none.
\<close>

definition combined_exclude :: "finder \<Rightarrow> string list \<Rightarrow> string list" where
  "combined_exclude cls exclude =
     ALWAYS_EXCLUDE cls @ (if exclude = [] then DEFAULT_EXCLUDE cls else exclude)"

text \<open>What a finder yields when both filters let every name through.\<close>

definition candidates :: "finder \<Rightarrow> node \<Rightarrow> string list \<Rightarrow> string list" where
  "candidates cls fs where_path = find_iter cls fs where_path (\<lambda>_. False) (\<lambda>_. True)"

text \<open>
  The traversal of \<open>walk\<close> once more, recording for each yielded name the directory it
  stands for, as the chain of directory names that leads to it from \<^verbatim>\<open>where\<close>
  (\<open>walk_eq_walk_dirs\<close> below: \<open>walk\<close> yields the package names of these chains, in the same
  order).
\<close>

fun walk_dirs ::
  "package_finder \<Rightarrow> name_filter \<Rightarrow> name_filter \<Rightarrow> string list \<Rightarrow> node \<Rightarrow> string list list" where
  "walk_dirs cls exclude include rel (Dir entries) =
     (let all_dirs = filter (\<lambda>(dir, n). is_dir n) entries;
          dirs = filter (\<lambda>(dir, n). \<not> (CHR ''.'' \<in> set dir \<or> \<not> looks_like_package cls dir n)) all_dirs
      in concat (map (\<lambda>(dir, n).
                   if include (package (rel @ [dir])) \<and> \<not> exclude (package (rel @ [dir]))
                   then [rel @ [dir]] else []) dirs)
         @ concat (map (\<lambda>(dir, n). walk_dirs cls exclude include (rel @ [dir]) n) dirs))"
| "walk_dirs cls exclude include rel _ = []"

text \<open>
  The directories behind the names that \<^verbatim>\<open>find\<close> returns for a package finder, when \<^verbatim>\<open>where\<close>
  names the node \<open>where_dir\<close>.
\<close>

definition found_dirs ::
  "package_finder \<Rightarrow> node \<Rightarrow> string list \<Rightarrow> string list \<Rightarrow> string list list" where
  "found_dirs cls where_dir exclude include =
     walk_dirs cls (build_filter (combined_exclude (Packages cls) exclude)) (build_filter include)
       [] where_dir"

text \<open>
  A chain of names below a node along which every step is a directory that the loop of
  \<^verbatim>\<open>_find_iter\<close> does not skip: no dot in its name, and it looks like a package to the class.
\<close>

fun accepted_at :: "package_finder \<Rightarrow> node \<Rightarrow> string list \<Rightarrow> bool" where
  "accepted_at cls t [] = True"
| "accepted_at cls (Dir entries) (s # ss) =
     list_ex (\<lambda>(dir, n). dir = s \<and> is_dir n
        \<and> \<not> (CHR ''.'' \<in> set dir \<or> \<not> looks_like_package cls dir n)
        \<and> accepted_at cls n ss) entries"
| "accepted_at cls _ (s # ss) = False"

text \<open>
  Every directory of the tree that is not below a directory with a dot in its name has a
  dot in its own name or a name that \<^verbatim>\<open>_valid_name\<close> accepts.
\<close>

fun dir_names_valid :: "node \<Rightarrow> bool" where
  "dir_names_valid (Dir entries) =
     list_all (\<lambda>(dir, n). is_dir n \<longrightarrow>
        CHR ''.'' \<in> set dir \<or> (valid_name dir \<and> dir_names_valid n)) entries"
| "dir_names_valid _ = True"

text \<open>
  The flat-layout package finder as the specification describes it: the namespace-tolerant
  finder \<open>PEP420PackageFinder\<close> with nothing changed but its default exclusion table, which
  is the flat-layout one.
\<close>

definition spec_FlatLayoutPackageFinder_find ::
  "node \<Rightarrow> string list \<Rightarrow> string list \<Rightarrow> string list \<Rightarrow> string list" where
  "spec_FlatLayoutPackageFinder_find fs where_path exclude include =
     find' (Packages PEP420PackageFinder) fs where_path
       (if exclude = [] then DEFAULT_EXCLUDE (Packages FlatLayoutPackageFinder) else exclude)
       include"

section \<open>Example trees\<close>

text \<open>
  A current directory that holds one directory \<^verbatim>\<open>root\<close>, with the given tree below it; the
  examples call \<^verbatim>\<open>find\<close> with \<^verbatim>\<open>where = 'root'\<close>.
\<close>

definition at_root :: "node \<Rightarrow> node" where
  "at_root t = Dir [(''root'', t)]"

text \<open>
  The tree of the end-to-end example: \<^verbatim>\<open>pkg1/__init__.py\<close>, \<^verbatim>\<open>pkg1/sub/__init__.py\<close>,
  \<^verbatim>\<open>pkg2file.py\<close> and \<^verbatim>\<open>tests/__init__.py\<close>, once listed in alphabetical order and once in
  the opposite order.
\<close>

definition example_tree :: node where
  "example_tree =
     Dir [(''pkg1'', Dir [(''__init__.py'', File), (''sub'', Dir [(''__init__.py'', File)])]),
          (''pkg2file.py'', File),
          (''tests'', Dir [(''__init__.py'', File)])]"

definition example_tree_reversed :: node where
  "example_tree_reversed =
     Dir [(''tests'', Dir [(''__init__.py'', File)]),
          (''pkg2file.py'', File),
          (''pkg1'', Dir [(''sub'', Dir [(''__init__.py'', File)]), (''__init__.py'', File)])]"

text \<open>A package \<^verbatim>\<open>sub\<close> inside a directory \<^verbatim>\<open>my.pkg\<close>, both with an \<^verbatim>\<open>__init__.py\<close>.\<close>

definition dotted_tree :: node where
  "dotted_tree =
     Dir [(''my.pkg'', Dir [(''__init__.py'', File), (''sub'', Dir [(''__init__.py'', File)])])]"

text \<open>
  Packages \<^verbatim>\<open>ez_setup\<close> and \<^verbatim>\<open>pkg\<close>, and inside \<^verbatim>\<open>pkg\<close> the packages \<^verbatim>\<open>ez_setup\<close> and
  \<^verbatim>\<open>__pycache__\<close>.
\<close>

definition nested_ez_setup_tree :: node where
  "nested_ez_setup_tree =
     Dir [(''ez_setup'', Dir [(''__init__.py'', File)]),
          (''pkg'', Dir [(''__init__.py'', File),
                         (''ez_setup'', Dir [(''__init__.py'', File)]),
                         (''__pycache__'', Dir [(''__init__.py'', File)])])]"

text \<open>Three empty directories \<^verbatim>\<open>foo\<close>, \<^verbatim>\<open>mypkg\<close> and \<^verbatim>\<open>tests\<close>.\<close>

definition flat_tree :: node where
  "flat_tree = Dir [(''foo'', Dir []), (''mypkg'', Dir []), (''tests'', Dir [])]"

text \<open>One empty directory whose name is not an identifier.\<close>

definition hyphen_tree :: node where
  "hyphen_tree = Dir [(''my-pkg'', Dir [])]"

text \<open>A directory, not a file, named \<^verbatim>\<open>pkg.py\<close>.\<close>

definition module_dir_tree :: node where
  "module_dir_tree = Dir [(''pkg.py'', Dir [(''__init__.py'', File)])]"

text \<open>A package \<^verbatim>\<open>inner\<close> inside a directory \<^verbatim>\<open>data\<close> that has no \<^verbatim>\<open>__init__.py\<close>.\<close>

definition data_tree :: node where
  "data_tree = Dir [(''data'', Dir [(''inner'', Dir [(''__init__.py'', File)])])]"

text \<open>
  A current directory with an empty directory named \<^verbatim>\<open>proj[12]\<close> beside \<^verbatim>\<open>proj1/mod.py\<close> and
  \<^verbatim>\<open>proj2/other.py\<close>.
\<close>

definition bracket_root_fs :: node where
  "bracket_root_fs =
     Dir [(''proj1'', Dir [(''mod.py'', File)]),
          (''proj2'', Dir [(''other.py'', File)]),
          (''proj[12]'', Dir [])]"

text \<open>A package \<^verbatim>\<open>foo\<close> with a subpackage \<^verbatim>\<open>bar\<close>.\<close>

definition foo_tree :: node where
  "foo_tree =
     Dir [(''foo'', Dir [(''__init__.py'', File), (''bar'', Dir [(''__init__.py'', File)])])]"

section \<open>The filters only select\<close>

text \<open>
  Neither finder lets the two filters steer the traversal: what a finder returns is what it
  returns with filters that let everything through, filtered afterwards.
\<close>

lemma concat_map_if: "concat (map (\<lambda>x. if P (f x) then [f x] else []) xs) = filter P (map f xs)"
  by (induction xs) simp_all

lemma walk_filter:
  "walk cls exclude incl rel n =
     filter (\<lambda>p. incl p \<and> \<not> exclude p) (walk cls (\<lambda>_. False) (\<lambda>_. True) rel n)"
proof (induction cls exclude incl rel n rule: walk.induct)
  case (1 cls exclude incl rel entries)
  define dirs where "dirs = filter (\<lambda>(dir, n). \<not> (CHR ''.'' \<in> set dir \<or> \<not> looks_like_package cls dir n))
     (filter (\<lambda>(dir, n). is_dir n) entries)"
  have IH: "walk cls exclude incl (rel @ [dir]) n =
     filter (\<lambda>p. incl p \<and> \<not> exclude p) (walk cls (\<lambda>_. False) (\<lambda>_. True) (rel @ [dir]) n)"
    if "(dir, n) \<in> set dirs" for dir n
    by (rule "1.IH" [OF refl refl _ refl]) (use that in \<open>simp add: dirs_def\<close>)
  have "concat (map (\<lambda>(dir, n). walk cls exclude incl (rel @ [dir]) n) dirs) =
        concat (map (\<lambda>(dir, n). filter (\<lambda>p. incl p \<and> \<not> exclude p)
             (walk cls (\<lambda>_. False) (\<lambda>_. True) (rel @ [dir]) n)) dirs)"
    by (rule arg_cong [where f = concat], rule map_cong) (auto simp: IH)
  then show ?case
    unfolding walk.simps Let_def dirs_def [symmetric]
    by (simp add: filter_concat comp_def case_prod_unfold concat_map_if [where P = "\<lambda>p. incl p \<and> \<not> exclude p"])
qed simp_all

lemma ModuleFinder_find_iter_filter:
  "ModuleFinder_find_iter cls fs where_path exclude incl =
     filter (\<lambda>m. incl m \<and> \<not> exclude m)
       (ModuleFinder_find_iter cls fs where_path (\<lambda>_. False) (\<lambda>_. True))"
proof -
  have "concat (map (\<lambda>file. let module = fst (splitext file)
          in if \<not> looks_like_module cls module then []
             else if incl module \<and> \<not> exclude module then [module] else []) files) =
        filter (\<lambda>m. incl m \<and> \<not> exclude m)
          (concat (map (\<lambda>file. let module = fst (splitext file)
          in if \<not> looks_like_module cls module then []
             else if True \<and> \<not> False then [module] else []) files))" for files
    by (induction files) (simp_all add: Let_def)
  then show ?thesis
    unfolding ModuleFinder_find_iter_def by simp
qed

lemma find_iter_filter:
  "find_iter cls fs where_path exclude incl =
     filter (\<lambda>p. incl p \<and> \<not> exclude p) (find_iter cls fs where_path (\<lambda>_. False) (\<lambda>_. True))"
proof (cases cls)
  case (Packages c)
  show ?thesis
  proof (cases "resolve fs where_path")
    case None
    with Packages show ?thesis by (simp add: PackageFinder_find_iter_def)
  next
    case (Some where_dir)
    with Packages show ?thesis
      using walk_filter [of c exclude incl "[]" where_dir]
      by (simp add: PackageFinder_find_iter_def)
  qed
next
  case (Modules c)
  then show ?thesis
    using ModuleFinder_find_iter_filter [of c fs where_path exclude incl] by simp
qed

lemma build_filter_append:
  "build_filter (ps @ qs) name \<longleftrightarrow> build_filter ps name \<or> build_filter qs name"
  by (auto simp: build_filter_def)

lemma find'_combined:
  "find' cls fs where_path exclude incl =
     find_iter cls fs where_path (build_filter (combined_exclude cls exclude)) (build_filter incl)"
  by (simp add: find'_def combined_exclude_def)

lemma find'_filter_candidates:
  "find' cls fs where_path exclude incl =
     filter (\<lambda>p. build_filter incl p \<and> \<not> build_filter (combined_exclude cls exclude) p)
       (candidates cls fs where_path)"
  unfolding find'_combined candidates_def by (rule find_iter_filter)

lemma find'_passes_filters:
  "p \<in> set (find' cls fs where_path exclude incl) \<Longrightarrow>
     build_filter incl p \<and> \<not> build_filter (combined_exclude cls exclude) p"
  by (simp add: find'_filter_candidates)

section \<open>What some patterns match\<close>

lemma glob_match_lits: "glob_match (map LIT lit) s \<longleftrightarrow> s = lit"
proof (induction lit arbitrary: s)
  case Nil
  then show ?case by simp
next
  case (Cons c lit)
  then show ?case by (cases s) auto
qed

lemma glob_match_star: "glob_match (STAR # ps) s \<longleftrightarrow> (\<exists>pre post. s = pre @ post \<and> glob_match ps post)"
proof (induction s)
  case Nil
  then show ?case by simp
next
  case (Cons x s)
  show ?case
  proof
    assume "glob_match (STAR # ps) (x # s)"
    then consider "glob_match ps (x # s)" | "glob_match (STAR # ps) s" by auto
    then show "\<exists>pre post. x # s = pre @ post \<and> glob_match ps post"
    proof cases
      case 1
      then have "x # s = [] @ (x # s) \<and> glob_match ps (x # s)" by simp
      then show ?thesis by blast
    next
      case 2
      with Cons.IH obtain pre post where "s = pre @ post" "glob_match ps post" by blast
      then have "x # s = (x # pre) @ post \<and> glob_match ps post" by simp
      then show ?thesis by blast
    qed
  next
    assume "\<exists>pre post. x # s = pre @ post \<and> glob_match ps post"
    then obtain pre post where eq: "x # s = pre @ post" and m: "glob_match ps post" by blast
    show "glob_match (STAR # ps) (x # s)"
    proof (cases pre)
      case Nil
      with eq have "post = x # s" by simp
      with m have "glob_match ps (x # s)" by simp
      then show ?thesis by simp
    next
      case (Cons y pre')
      with eq have "s = pre' @ post" by simp
      with m Cons.IH have "glob_match (STAR # ps) s" by blast
      then show ?thesis by simp
    qed
  qed
qed

lemma glob_match_star_lits: "glob_match (STAR # map LIT lit) s \<longleftrightarrow> suffix lit s"
  by (auto simp: glob_match_star glob_match_lits suffix_def)

lemma glob_match_lits_star: "glob_match (map LIT lit @ [STAR]) s \<longleftrightarrow> prefix lit s"
proof (induction lit arbitrary: s)
  case Nil
  have "glob_match [STAR] s" by (induction s) simp_all
  then show ?case by simp
next
  case (Cons c lit)
  then show ?case by (cases s) auto
qed

lemma fnmatchcase_ez_setup: "fnmatchcase name ''ez_setup'' \<longleftrightarrow> name = ''ez_setup''"
proof -
  have "translate ''ez_setup'' = map LIT ''ez_setup''" by simp
  then show ?thesis by (simp only: fnmatchcase_def glob_match_lits)
qed

lemma fnmatchcase_pycache: "fnmatchcase name ''*__pycache__'' \<longleftrightarrow> suffix ''__pycache__'' name"
proof -
  have "translate ''*__pycache__'' = STAR # map LIT ''__pycache__''" by simp
  then show ?thesis by (simp only: fnmatchcase_def glob_match_star_lits)
qed

lemma fnmatchcase_py: "fnmatchcase name ''*.py'' \<longleftrightarrow> suffix ''.py'' name"
proof -
  have "translate ''*.py'' = STAR # map LIT ''.py''" by simp
  then show ?thesis by (simp only: fnmatchcase_def glob_match_star_lits)
qed

lemma fnmatchcase_any: "fnmatchcase name ''*''"
proof -
  have "translate ''*'' = map LIT [] @ [STAR]" by simp
  then show ?thesis by (simp only: fnmatchcase_def glob_match_lits_star) simp
qed

lemma fnmatchcase_foo: "fnmatchcase name ''foo'' \<longleftrightarrow> name = ''foo''"
proof -
  have "translate ''foo'' = map LIT ''foo''" by simp
  then show ?thesis by (simp only: fnmatchcase_def glob_match_lits)
qed

lemma fnmatchcase_foo_star: "fnmatchcase name ''foo.*'' \<longleftrightarrow> prefix ''foo.'' name"
proof -
  have "translate ''foo.*'' = map LIT ''foo.'' @ [STAR]" by simp
  then show ?thesis by (simp only: fnmatchcase_def glob_match_lits_star)
qed

section \<open>Package names\<close>

lemma join_snoc: "join sep (xs @ [x]) = (if xs = [] then x else join sep xs @ sep @ x)"
  by (induction sep xs rule: join.induct) auto

lemma package_snoc:
  "package (parts @ [dir]) =
     (if parts = [] then replace os_path_sep (CHR ''.'') dir
      else package parts @ ''.'' @ replace os_path_sep (CHR ''.'') dir)"
  by (simp add: package_def relpath_def join_snoc replace_def)

lemma package_single: "package [dir] = replace os_path_sep (CHR ''.'') dir"
  using package_snoc [of "[]" dir] by simp

lemma package_two: "package [a, b] = replace os_path_sep (CHR ''.'') a @ ''.'' @ replace os_path_sep (CHR ''.'') b"
  using package_snoc [of "[a]" b] by (simp add: package_single)

lemma replace_append: "replace a b (xs @ ys) = replace a b xs @ replace a b ys"
  by (simp add: replace_def)

section \<open>The directories a package finder returns\<close>

text \<open>
  \<open>walk\<close> yields the package names of the chains that \<open>walk_dirs\<close> records, and a chain is
  recorded exactly when no directory along it is skipped and its own package name passes
  the two filters.
\<close>

lemma walk_eq_walk_dirs:
  "walk cls exclude incl rel n = map package (walk_dirs cls exclude incl rel n)"
proof (induction cls exclude incl rel n rule: walk.induct)
  case (1 cls exclude incl rel entries)
  define dirs where
    "dirs = filter (\<lambda>(dir, n). \<not> (CHR ''.'' \<in> set dir \<or> \<not> looks_like_package cls dir n))
       (filter (\<lambda>(dir, n). is_dir n) entries)"
  have IH: "walk cls exclude incl (rel @ [dir]) n = map package (walk_dirs cls exclude incl (rel @ [dir]) n)"
    if "(dir, n) \<in> set dirs" for dir n
    by (rule "1.IH" [OF refl refl _ refl]) (use that in \<open>simp add: dirs_def\<close>)
  have deep: "concat (map (\<lambda>(dir, n). walk cls exclude incl (rel @ [dir]) n) dirs) =
        concat (map (\<lambda>(dir, n). map package (walk_dirs cls exclude incl (rel @ [dir]) n)) dirs)"
    by (rule arg_cong [where f = concat], rule map_cong) (auto simp: IH)
  have here: "concat (map (\<lambda>(dir, n). if incl (package (rel @ [dir])) \<and> \<not> exclude (package (rel @ [dir]))
                   then [package (rel @ [dir])] else []) ds) =
      map package (concat (map (\<lambda>(dir, n). if incl (package (rel @ [dir])) \<and> \<not> exclude (package (rel @ [dir]))
                   then [rel @ [dir]] else []) ds))" for ds :: "(string \<times> node) list"
    by (induction ds) auto
  show ?case
    unfolding walk.simps walk_dirs.simps Let_def dirs_def [symmetric]
    by (simp only: deep here map_append map_concat) (simp add: comp_def case_prod_unfold)
qed simp_all

lemma find'_found_dirs:
  "resolve fs where_path = Some where_dir \<Longrightarrow>
     find' (Packages cls) fs where_path exclude incl
       = map package (found_dirs cls where_dir exclude incl)"
  by (simp add: find'_combined PackageFinder_find_iter_def found_dirs_def walk_eq_walk_dirs)

lemma walk_dirs_iff:
  "q \<in> set (walk_dirs cls exclude incl rel t) \<longleftrightarrow>
     (\<exists>segs. segs \<noteq> [] \<and> q = rel @ segs \<and> accepted_at cls t segs
        \<and> incl (package q) \<and> \<not> exclude (package q))"
proof (induction cls exclude incl rel t arbitrary: q rule: walk_dirs.induct)
  case (1 cls exclude incl rel entries)
  define keep where "keep = (\<lambda>(dir :: string, n). is_dir n \<and> \<not> (CHR ''.'' \<in> set dir \<or> \<not> looks_like_package cls dir n))"
  define dirs where "dirs = filter keep entries"
  have dirs_eq: "filter (\<lambda>(dir, n). \<not> (CHR ''.'' \<in> set dir \<or> \<not> looks_like_package cls dir n))
       (filter (\<lambda>(dir, n). is_dir n) entries) = dirs"
    by (auto simp: dirs_def keep_def intro: filter_cong)
  have IH: "q \<in> set (walk_dirs cls exclude incl (rel @ [dir]) n) \<longleftrightarrow>
     (\<exists>segs. segs \<noteq> [] \<and> q = (rel @ [dir]) @ segs \<and> accepted_at cls n segs
        \<and> incl (package q) \<and> \<not> exclude (package q))"
    if "(dir, n) \<in> set dirs" for dir n q
    by (rule "1.IH" [OF refl refl _ refl]) (use that dirs_eq in simp)
  have mem: "(dir, n) \<in> set dirs \<longleftrightarrow> (dir, n) \<in> set entries \<and> keep (dir, n)" for dir n
    by (simp add: dirs_def)
  have acc: "accepted_at cls (Dir entries) (s # ss) \<longleftrightarrow> (\<exists>n. (s, n) \<in> set dirs \<and> accepted_at cls n ss)" for s ss
    by (auto simp: mem keep_def list_ex_iff)
  have unfold: "q \<in> set (walk_dirs cls exclude incl rel (Dir entries)) \<longleftrightarrow>
     (\<exists>dir n. (dir, n) \<in> set dirs \<and>
        ((q = rel @ [dir] \<and> incl (package q) \<and> \<not> exclude (package q))
         \<or> q \<in> set (walk_dirs cls exclude incl (rel @ [dir]) n)))"
    unfolding walk_dirs.simps Let_def dirs_eq by auto
  show ?case
  proof
    assume "q \<in> set (walk_dirs cls exclude incl rel (Dir entries))"
    then obtain dir n where d: "(dir, n) \<in> set dirs"
      and q: "(q = rel @ [dir] \<and> incl (package q) \<and> \<not> exclude (package q))
         \<or> q \<in> set (walk_dirs cls exclude incl (rel @ [dir]) n)"
      unfolding unfold by blast
    from q show "\<exists>segs. segs \<noteq> [] \<and> q = rel @ segs \<and> accepted_at cls (Dir entries) segs
        \<and> incl (package q) \<and> \<not> exclude (package q)"
    proof
      assume a: "q = rel @ [dir] \<and> incl (package q) \<and> \<not> exclude (package q)"
      have "accepted_at cls (Dir entries) [dir]" by (subst acc) (use d in auto)
      with a show ?thesis by (intro exI [of _ "[dir]"]) auto
    next
      assume "q \<in> set (walk_dirs cls exclude incl (rel @ [dir]) n)"
      with IH [OF d] obtain segs where s: "segs \<noteq> []" "q = (rel @ [dir]) @ segs"
        "accepted_at cls n segs" "incl (package q)" "\<not> exclude (package q)" by blast
      have "accepted_at cls (Dir entries) (dir # segs)" using d s(3) acc by blast
      with s show ?thesis by (intro exI [of _ "dir # segs"]) auto
    qed
  next
    assume "\<exists>segs. segs \<noteq> [] \<and> q = rel @ segs \<and> accepted_at cls (Dir entries) segs
        \<and> incl (package q) \<and> \<not> exclude (package q)"
    then obtain segs where s: "segs \<noteq> []" "q = rel @ segs" "accepted_at cls (Dir entries) segs"
        "incl (package q)" "\<not> exclude (package q)" by blast
    from s(1) obtain dir ss where segs: "segs = dir # ss" by (cases segs) auto
    with s(3) acc obtain n where d: "(dir, n) \<in> set dirs" and a: "accepted_at cls n ss" by blast
    show "q \<in> set (walk_dirs cls exclude incl rel (Dir entries))"
    proof (cases ss)
      case Nil
      with s segs d show ?thesis unfolding unfold by auto
    next
      case (Cons x xs)
      with s segs a have "q \<in> set (walk_dirs cls exclude incl (rel @ [dir]) n)"
        using IH [OF d, of q] by auto
      with d show ?thesis unfolding unfold by blast
    qed
  qed
qed (auto simp: neq_Nil_conv)

lemma nodes_at_Cons:
  "n' \<in> set (nodes_at (Dir entries) (s # ss)) \<longleftrightarrow> (\<exists>n. (s, n) \<in> set entries \<and> n' \<in> set (nodes_at n ss))"
  by (auto split: if_splits)

lemma accepted_at_snoc:
  "accepted_at cls t (parts @ [dir]) \<Longrightarrow>
     \<exists>n \<in> set (nodes_at t (parts @ [dir])). is_dir n \<and> CHR ''.'' \<notin> set dir \<and> looks_like_package cls dir n"
proof (induction parts arbitrary: t)
  case Nil
  then show ?case by (cases t) (auto simp: list_ex_iff)
next
  case (Cons s parts)
  then obtain entries where t: "t = Dir entries" by (cases t) auto
  with Cons.prems obtain n where n: "(s, n) \<in> set entries" "accepted_at cls n (parts @ [dir])"
    by (auto simp: list_ex_iff)
  from Cons.IH [OF n(2)] obtain n' where "n' \<in> set (nodes_at n (parts @ [dir]))"
    "is_dir n' \<and> CHR ''.'' \<notin> set dir \<and> looks_like_package cls dir n'" by blast
  with n(1) t show ?case
    using nodes_at_Cons [of n' entries s "parts @ [dir]"] by auto
qed

lemma accepted_at_prefix: "accepted_at cls t (xs @ ys) \<Longrightarrow> accepted_at cls t xs"
proof (induction xs arbitrary: t)
  case Nil
  then show ?case by simp
next
  case (Cons s xs)
  then obtain entries where t: "t = Dir entries" by (cases t) auto
  with Cons show ?case by (auto simp: list_ex_iff)
qed

lemma accepted_at_ConsI:
  assumes "(s, n) \<in> set entries" and "is_dir n" and "CHR ''.'' \<notin> set s"
    and "looks_like_package cls s n" and "accepted_at cls n ss"
  shows "accepted_at cls (Dir entries) (s # ss)"
  unfolding accepted_at.simps list_ex_iff
  by (rule bexI [OF _ assms(1)]) (use assms in simp)

lemma accepted_at_no_dots: "accepted_at cls t q \<Longrightarrow> s \<in> set q \<Longrightarrow> CHR ''.'' \<notin> set s"
proof (induction q arbitrary: t)
  case Nil
  then show ?case by simp
next
  case (Cons x q)
  then obtain entries where t: "t = Dir entries" by (cases t) auto
  with Cons.prems(1) obtain n where n: "CHR ''.'' \<notin> set x" "accepted_at cls n q"
    by (auto simp: list_ex_iff)
  with Cons.IH [OF n(2)] Cons.prems(2) show ?case by auto
qed

lemma find'_packages_iff:
  assumes "resolve fs where_path = Some where_dir"
  shows "p \<in> set (find' (Packages cls) fs where_path exclude incl) \<longleftrightarrow>
     (\<exists>parts. parts \<noteq> [] \<and> p = package parts \<and> accepted_at cls where_dir parts
        \<and> build_filter incl p \<and> \<not> build_filter (combined_exclude (Packages cls) exclude) p)"
proof -
  have "p \<in> set (find' (Packages cls) fs where_path exclude incl) \<longleftrightarrow>
     (\<exists>q \<in> set (found_dirs cls where_dir exclude incl). p = package q)"
    by (auto simp: find'_found_dirs [OF assms])
  also have "\<dots> \<longleftrightarrow> (\<exists>q. (\<exists>segs. segs \<noteq> [] \<and> q = [] @ segs \<and> accepted_at cls where_dir segs
        \<and> build_filter incl (package q)
        \<and> \<not> build_filter (combined_exclude (Packages cls) exclude) (package q)) \<and> p = package q)"
    unfolding found_dirs_def Bex_def walk_dirs_iff ..
  also have "\<dots> \<longleftrightarrow> (\<exists>parts. parts \<noteq> [] \<and> p = package parts \<and> accepted_at cls where_dir parts
        \<and> build_filter incl p \<and> \<not> build_filter (combined_exclude (Packages cls) exclude) p)"
    by auto
  finally show ?thesis .
qed

lemma found_dirs_accepted:
  "q \<in> set (found_dirs cls where_dir exclude incl) \<Longrightarrow> q \<noteq> [] \<and> accepted_at cls where_dir q"
  unfolding found_dirs_def walk_dirs_iff by auto

section \<open>The modules a module finder returns\<close>

lemma rfind_negative: "rfind s c < 0 \<Longrightarrow> rfind s c = -1"
  by (induction s) (auto simp: Let_def split: if_splits)

lemma rfind_append:
  "rfind (s @ t) c = (if 0 \<le> rfind t c then int (length s) + rfind t c else rfind s c)"
proof (induction s)
  case Nil
  then show ?case using rfind_negative [of t c] by auto
next
  case (Cons x s)
  then show ?case by (auto simp: Let_def)
qed

lemma fst_splitext_py: "fst (splitext (s @ ''.py'')) = s \<or> fst (splitext (s @ ''.py'')) = s @ ''.py''"
proof -
  have "rfind (s @ ''.py'') (CHR ''.'') = int (length s)"
    by (simp add: rfind_append)
  then show ?thesis
    by (simp add: splitext_def Let_def)
qed

lemma identifier_char: "is_letter c \<or> is_digit c \<Longrightarrow> c \<noteq> CHR ''.'' \<and> c \<noteq> CHR ''/''"
  by (auto simp: is_letter_def is_digit_def)

lemma isidentifier_chars:
  assumes "isidentifier m" and "c \<in> set m"
  shows "c \<noteq> CHR ''.'' \<and> c \<noteq> CHR ''/''"
proof -
  from assms(1) obtain x xs where m: "m = x # xs" and x: "is_letter x"
    and xs: "\<forall>y \<in> set xs. is_letter y \<or> is_digit y"
    by (cases m) (auto simp: list_all_iff)
  from assms(2) m x xs have "is_letter c \<or> is_digit c" by auto
  then show ?thesis by (rule identifier_char)
qed

lemma basename_append_py: "basename (s @ ''.py'') = basename s @ ''.py''"
  by (simp add: basename_def os_path_sep_def)

lemma not_valid_name_py: "\<not> valid_name (s @ ''.py'')"
  using isidentifier_chars [of "basename s @ ''.py''" "CHR ''.''"]
  by (auto simp: valid_name_def basename_append_py)

lemma glob1_mem:
  "(name, n) \<in> set (glob1 t pattern dironly) \<longleftrightarrow>
     (\<exists>entries. t = Dir entries \<and> (name, n) \<in> set entries \<and> fnmatchcase name pattern
        \<and> (ishidden pattern \<or> \<not> ishidden name) \<and> (\<not> dironly \<or> is_dir n))"
  by (cases t) auto

lemma glob_dirs_plain:
  "\<forall>c \<in> set where_path. \<not> has_magic c \<Longrightarrow>
     glob_dirs t where_path = (case resolve t where_path of Some n \<Rightarrow> [n] | None \<Rightarrow> [])"
proof (induction where_path arbitrary: t)
  case Nil
  then show ?case by simp
next
  case (Cons c cs)
  show ?case
  proof (cases t)
    case (Dir entries)
    with Cons show ?thesis by (cases "map_of entries c") auto
  qed (use Cons in auto)
qed

lemma ModuleFinder_find_iter_mem:
  assumes "m \<in> set (ModuleFinder_find_iter cls fs where_path exclude incl)"
  shows "\<exists>entries n. Dir entries \<in> set (glob_dirs fs where_path) \<and> (m @ ''.py'', n) \<in> set entries
           \<and> looks_like_module cls m \<and> incl m \<and> \<not> exclude m"
proof -
  from assms obtain fname where fname: "fname \<in> set (glob fs where_path ''*.py'')"
    and m: "m = fst (splitext fname)" and ok: "looks_like_module cls m" "incl m" "\<not> exclude m"
    by (auto simp: ModuleFinder_find_iter_def Let_def split: if_splits)
  from fname obtain d n where d: "d \<in> set (glob_dirs fs where_path)"
    and n: "(fname, n) \<in> set (glob1 d ''*.py'' False)"
    by (auto simp: glob_def)
  from n obtain entries where entries: "d = Dir entries" "(fname, n) \<in> set entries"
    and py: "fnmatchcase fname ''*.py''"
    unfolding glob1_mem by blast
  from py obtain s where s: "fname = s @ ''.py''"
    by (auto simp: fnmatchcase_py suffix_def)
  with m fst_splitext_py [of s] ok(1) not_valid_name_py [of s] have "m = s" by auto
  with s d entries ok show ?thesis by auto
qed

section \<open>The flat-layout test on trees of valid names\<close>

lemma walk_flat_layout:
  "cls = FlatLayoutPackageFinder \<Longrightarrow> dir_names_valid t \<Longrightarrow>
     walk cls exclude incl rel t = walk PEP420PackageFinder exclude incl rel t"
proof (induction cls exclude incl rel t rule: walk.induct)
  case (1 cls exclude incl rel entries)
  define dirs where
    "dirs = filter (\<lambda>(dir, n). \<not> (CHR ''.'' \<in> set dir \<or> \<not> looks_like_package cls dir n))
       (filter (\<lambda>(dir, n). is_dir n) entries)"
  have valid: "CHR ''.'' \<in> set dir \<or> (valid_name dir \<and> dir_names_valid n)"
    if "(dir, n) \<in> set entries" "is_dir n" for dir n
    using "1.prems"(2) that by (auto simp: list_all_iff)
  have same: "filter (\<lambda>(dir, n). \<not> (CHR ''.'' \<in> set dir \<or> \<not> looks_like_package PEP420PackageFinder dir n))
       (filter (\<lambda>(dir, n). is_dir n) entries) = dirs"
    unfolding dirs_def using valid "1.prems"(1) by (intro filter_cong) auto
  have IH: "walk cls exclude incl (rel @ [dir]) n = walk PEP420PackageFinder exclude incl (rel @ [dir]) n"
    if "(dir, n) \<in> set dirs" for dir n
  proof (rule "1.IH" [OF refl refl _ refl "1.prems"(1)])
    show "(dir, n) \<in> set (filter (\<lambda>(dir, n). \<not> (CHR ''.'' \<in> set dir \<or> \<not> looks_like_package cls dir n))
       (filter (\<lambda>(dir, n). is_dir n) entries))"
      using that by (simp add: dirs_def)
    show "dir_names_valid n"
      using that valid [of dir n] by (auto simp: dirs_def)
  qed
  have "concat (map (\<lambda>(dir, n). walk cls exclude incl (rel @ [dir]) n) dirs) =
        concat (map (\<lambda>(dir, n). walk PEP420PackageFinder exclude incl (rel @ [dir]) n) dirs)"
    by (rule arg_cong [where f = concat], rule map_cong) (auto simp: IH)
  then show ?case
    unfolding walk.simps Let_def same dirs_def [symmetric] by simp
qed simp_all

section \<open>Where the returned names come from\<close>

text \<open>
  Every name returned by a package finder is the package name of a chain of names that
  leads from the node named by \<^verbatim>\<open>where\<close> to a directory which passes the finder's
  \<^verbatim>\<open>_looks_like_package\<close>. Every name \<open>m\<close> returned by a module finder comes from an entry
  \<open>m.py\<close> of one of the directories that \<^verbatim>\<open>glob\<close> expands \<^verbatim>\<open>where\<close> to; when no component of
  \<^verbatim>\<open>where\<close> has a wildcard, that is the directory named by \<^verbatim>\<open>where\<close>.
\<close>

lemma returned_packages_exist:
  assumes "p \<in> set (find' (Packages cls) fs where_path exclude incl)"
  shows "\<exists>where_dir parts. resolve fs where_path = Some where_dir \<and> parts \<noteq> []
           \<and> p = package parts
           \<and> (\<exists>n \<in> set (nodes_at where_dir parts).
                 is_dir n \<and> looks_like_package cls (last parts) n)"
proof (cases "resolve fs where_path")
  case None
  with assms show ?thesis
    by (simp add: find'_combined PackageFinder_find_iter_def)
next
  case (Some where_dir)
  with assms obtain parts where parts: "parts \<noteq> []" "p = package parts"
      "accepted_at cls where_dir parts"
    unfolding find'_packages_iff [OF Some] by blast
  from parts(1) have "parts = butlast parts @ [last parts]" by simp
  with parts(3) accepted_at_snoc [of cls where_dir "butlast parts" "last parts"]
  have "\<exists>n \<in> set (nodes_at where_dir parts). is_dir n \<and> looks_like_package cls (last parts) n"
    by auto
  with parts Some show ?thesis by blast
qed

lemma returned_modules_exist_on_plain_root:
  assumes "m \<in> set (find' (Modules cls) fs where_path exclude incl)"
    and "\<forall>c \<in> set where_path. \<not> has_magic c"
  shows "\<exists>entries n. resolve fs where_path = Some (Dir entries) \<and> (m @ ''.py'', n) \<in> set entries
           \<and> looks_like_module cls m"
proof -
  from assms(1) have "m \<in> set (ModuleFinder_find_iter cls fs where_path
      (build_filter (combined_exclude (Modules cls) exclude)) (build_filter incl))"
    by (simp add: find'_combined)
  from ModuleFinder_find_iter_mem [OF this] obtain entries n where
    d: "Dir entries \<in> set (glob_dirs fs where_path)" and n: "(m @ ''.py'', n) \<in> set entries"
    and ok: "looks_like_module cls m"
    by blast
  from d glob_dirs_plain [OF assms(2), of fs] have "resolve fs where_path = Some (Dir entries)"
    by (auto split: option.splits)
  with n ok show ?thesis by blast
qed

section \<open>Directories that are skipped and directories that are filtered out\<close>

text \<open>
  C1, as the specification states it, fails: a package \<^verbatim>\<open>sub\<close> inside a directory named
  \<^verbatim>\<open>my.pkg\<close> is found by none of the three package finders. The \<^verbatim>\<open>continue\<close> of the loop
  keeps a directory with a dot in its name out of \<open>dirs\<close>, so \<^verbatim>\<open>os.walk\<close> never enters it.
\<close>

theorem dotted_directory_blocks_counterexample:
  "looks_like_package PackageFinder ''sub'' (Dir [(''__init__.py'', File)])
   \<and> find' (Packages PackageFinder) (at_root dotted_tree) [''root''] [] [''*''] = []
   \<and> find' (Packages PEP420PackageFinder) (at_root dotted_tree) [''root''] [] [''*''] = []
   \<and> find' (Packages FlatLayoutPackageFinder) (at_root dotted_tree) [''root''] [] [''*''] = []"
  by code_simp

text \<open>
  C1, amended. For every package finder and every tree \<open>where_dir\<close> that \<^verbatim>\<open>where\<close> names: a
  directory reached through directories that are not skipped (no dot in the name, looking
  like a package), and not skipped itself, is returned whenever its own package name passes
  the include and exclude filters, whether or not the names of the directories above it
  pass them; so a directory that the filters reject does not block discovery below it. A
  directory with a dot in its name is never returned and nothing below it is: no returned
  name stands for a chain of directories with a dot in one of its names.
\<close>

theorem excluded_parent_does_not_block:
  assumes "resolve fs where_path = Some where_dir"
  shows "(parts \<noteq> [] \<and> accepted_at cls where_dir parts
      \<and> build_filter incl (package parts)
      \<and> \<not> build_filter (combined_exclude (Packages cls) exclude) (package parts)
     \<longrightarrow> package parts \<in> set (find' (Packages cls) fs where_path exclude incl))
   \<and> find' (Packages cls) fs where_path exclude incl
       = map package (found_dirs cls where_dir exclude incl)
   \<and> (q \<in> set (found_dirs cls where_dir exclude incl) \<and> dir \<in> set q \<longrightarrow> CHR ''.'' \<notin> set dir)"
proof (intro conjI impI)
  assume "parts \<noteq> [] \<and> accepted_at cls where_dir parts
      \<and> build_filter incl (package parts)
      \<and> \<not> build_filter (combined_exclude (Packages cls) exclude) (package parts)"
  then show "package parts \<in> set (find' (Packages cls) fs where_path exclude incl)"
    unfolding find'_packages_iff [OF assms] by blast
next
  show "find' (Packages cls) fs where_path exclude incl
       = map package (found_dirs cls where_dir exclude incl)"
    by (rule find'_found_dirs [OF assms])
next
  assume "q \<in> set (found_dirs cls where_dir exclude incl) \<and> dir \<in> set q"
  then show "CHR ''.'' \<notin> set dir"
    using found_dirs_accepted [of q cls where_dir exclude incl]
      accepted_at_no_dots [of cls where_dir q dir]
    by blast
qed

text \<open>
  On the example tree with \<open>exclude = (''pkg1'',)\<close>: \<open>pkg1\<close> is left out and \<open>pkg1.sub\<close> is
  returned.
\<close>

theorem excluded_parent_does_not_block_witness:
  "resolve (at_root example_tree) [''root''] = Some example_tree
   \<and> [''pkg1'', ''sub''] \<noteq> [] \<and> accepted_at PackageFinder example_tree [''pkg1'', ''sub'']
   \<and> build_filter [''*''] (package [''pkg1'', ''sub''])
   \<and> \<not> build_filter (combined_exclude (Packages PackageFinder) [''pkg1''])
        (package [''pkg1'', ''sub''])
   \<and> ''pkg1'' \<notin> set (find' (Packages PackageFinder) (at_root example_tree) [''root'']
        [''pkg1''] [''*''])
   \<and> package [''pkg1'', ''sub''] \<in> set (find' (Packages PackageFinder) (at_root example_tree)
        [''root''] [''pkg1''] [''*''])
   \<and> [''pkg1'', ''sub''] \<in> set (found_dirs PackageFinder example_tree [''pkg1''] [''*''])
   \<and> CHR ''.'' \<notin> set ''sub''"
proof -
  have r: "resolve (at_root example_tree) [''root''] = Some example_tree"
    by (simp add: at_root_def)
  have h: "[''pkg1'', ''sub''] \<noteq> [] \<and> accepted_at PackageFinder example_tree [''pkg1'', ''sub'']
   \<and> build_filter [''*''] (package [''pkg1'', ''sub''])
   \<and> \<not> build_filter (combined_exclude (Packages PackageFinder) [''pkg1''])
        (package [''pkg1'', ''sub''])"
    by code_simp
  have g: "''pkg1'' \<notin> set (find' (Packages PackageFinder) (at_root example_tree) [''root'']
        [''pkg1''] [''*''])"
    "[''pkg1'', ''sub''] \<in> set (found_dirs PackageFinder example_tree [''pkg1''] [''*''])"
    by code_simp+
  from r h g excluded_parent_does_not_block [OF r, where parts = "[''pkg1'', ''sub'']"
      and cls = PackageFinder and incl = "[''*'']" and exclude = "[''pkg1'']"
      and q = "[''pkg1'', ''sub'']" and dir = "''sub''"]
  show ?thesis by simp
qed

section \<open>The always-excluded names\<close>

text \<open>
  C2, as the specification states it, fails: the pattern \<open>ez_setup\<close> is matched against the
  whole dotted name, so a package \<^verbatim>\<open>ez_setup\<close> inside a package \<^verbatim>\<open>pkg\<close> is returned as
  \<open>pkg.ez_setup\<close>.
\<close>

theorem nested_ez_setup_counterexample:
  "find' (Packages PackageFinder) (at_root nested_ez_setup_tree) [''root''] [] [''*'']
     = [''pkg'', ''pkg.ez_setup'']"
  by code_simp

text \<open>
  C2, amended. For every package finder, every filesystem and \<^verbatim>\<open>where\<close>, and every exclude
  and include list, the result holds neither the name of a directory \<^verbatim>\<open>ez_setup\<close> directly
  below \<^verbatim>\<open>where\<close> nor, at any depth, the name of a directory whose base name matches
  \<open>*__pycache__\<close>.
\<close>

theorem always_excluded_names:
  "package [''ez_setup''] \<notin> set (find' (Packages cls) fs where_path exclude incl)
   \<and> (fnmatchcase dir ''*__pycache__''
        \<longrightarrow> package (parts @ [dir]) \<notin> set (find' (Packages cls) fs where_path exclude incl))"
proof (intro conjI impI)
  have always: "\<not> build_filter [''ez_setup'', ''*__pycache__''] p"
    if "p \<in> set (find' (Packages cls) fs where_path exclude incl)" for p
    using find'_passes_filters [OF that]
    by (auto simp: combined_exclude_def build_filter_def)
  have "package [''ez_setup''] = ''ez_setup''"
    by (simp add: package_single replace_def os_path_sep_def)
  then have "build_filter [''ez_setup'', ''*__pycache__''] (package [''ez_setup''])"
    by (simp add: build_filter_def fnmatchcase_ez_setup)
  with always show "package [''ez_setup''] \<notin> set (find' (Packages cls) fs where_path exclude incl)"
    by blast
  assume "fnmatchcase dir ''*__pycache__''"
  then obtain pre where "dir = pre @ ''__pycache__''"
    by (auto simp: fnmatchcase_pycache suffix_def)
  then have "replace os_path_sep (CHR ''.'') dir
      = replace os_path_sep (CHR ''.'') pre @ ''__pycache__''"
    by (simp add: replace_append) (simp add: replace_def os_path_sep_def)
  then have "suffix ''__pycache__'' (package (parts @ [dir]))"
    unfolding package_snoc by (auto simp: suffix_def)
  then have "build_filter [''ez_setup'', ''*__pycache__''] (package (parts @ [dir]))"
    by (simp add: build_filter_def fnmatchcase_pycache)
  with always
  show "package (parts @ [dir]) \<notin> set (find' (Packages cls) fs where_path exclude incl)"
    by blast
qed

text \<open>On the tree above, \<open>ez_setup\<close> and \<open>pkg.__pycache__\<close> are not returned.\<close>

theorem always_excluded_names_witness:
  "fnmatchcase ''__pycache__'' ''*__pycache__''
   \<and> package [''ez_setup''] \<notin> set (find' (Packages PackageFinder)
        (at_root nested_ez_setup_tree) [''root''] [] [''*''])
   \<and> package ([''pkg''] @ [''__pycache__'']) \<notin> set (find' (Packages PackageFinder)
        (at_root nested_ez_setup_tree) [''root''] [] [''*''])"
proof -
  have h: "fnmatchcase ''__pycache__'' ''*__pycache__''" by code_simp
  with always_excluded_names [of PackageFinder "at_root nested_ez_setup_tree" "[''root'']"
      "[]" "[''*'']" "''__pycache__''" "[''pkg'']"]
  show ?thesis by blast
qed

section \<open>The flat-layout package finder\<close>

text \<open>
  C3, as the specification states it, fails: \<open>FlatLayoutPackageFinder\<close> also replaces
  \<^verbatim>\<open>_looks_like_package\<close> by \<^verbatim>\<open>_valid_name\<close>, so it skips a directory \<^verbatim>\<open>my-pkg\<close> that the
  namespace-tolerant finder with the flat-layout table returns.
\<close>

theorem flat_layout_counterexample:
  "find' (Packages FlatLayoutPackageFinder) (at_root hyphen_tree) [''root''] [] [''*''] = []
   \<and> spec_FlatLayoutPackageFinder_find (at_root hyphen_tree) [''root''] [] [''*'']
       = [''my-pkg'']"
  by code_simp

text \<open>
  C3, amended. When \<^verbatim>\<open>where\<close> names a tree in which every directory that can be reached
  without passing a dotted name has a dot in its name or a name that is a valid identifier,
  \<open>FlatLayoutPackageFinder.find\<close> returns the same list, in the same order, as the
  namespace-tolerant finder with the flat-layout default exclusion table, for every exclude
  and include list.
\<close>

theorem flat_layout_is_pep420_on_valid_names:
  "resolve fs where_path = Some where_dir \<Longrightarrow> dir_names_valid where_dir \<Longrightarrow>
     find' (Packages FlatLayoutPackageFinder) fs where_path exclude incl
       = spec_FlatLayoutPackageFinder_find fs where_path exclude incl"
  by (simp add: spec_FlatLayoutPackageFinder_find_def find'_def PackageFinder_find_iter_def
      walk_flat_layout)

text \<open>On three directories \<^verbatim>\<open>foo\<close>, \<^verbatim>\<open>mypkg\<close> and \<^verbatim>\<open>tests\<close> both return \<open>foo\<close> and \<open>mypkg\<close>.\<close>

theorem flat_layout_is_pep420_on_valid_names_witness:
  "resolve (at_root flat_tree) [''root''] = Some flat_tree
   \<and> dir_names_valid flat_tree
   \<and> find' (Packages FlatLayoutPackageFinder) (at_root flat_tree) [''root''] [] [''*'']
       = spec_FlatLayoutPackageFinder_find (at_root flat_tree) [''root''] [] [''*'']
   \<and> spec_FlatLayoutPackageFinder_find (at_root flat_tree) [''root''] [] [''*'']
       = [''foo'', ''mypkg'']"
proof -
  have r: "resolve (at_root flat_tree) [''root''] = Some flat_tree"
    by (simp add: at_root_def)
  have v: "dir_names_valid flat_tree" by code_simp
  have "spec_FlatLayoutPackageFinder_find (at_root flat_tree) [''root''] [] [''*'']
      = [''foo'', ''mypkg'']"
    by code_simp
  with r v flat_layout_is_pep420_on_valid_names [OF r v, of "[]" "[''*'']"]
  show ?thesis by simp
qed

section \<open>A skipped directory is not entered\<close>

text \<open>
  C4. For every package finder and every tree \<open>where_dir\<close> that \<^verbatim>\<open>where\<close> names: when the
  directory reached from there through \<open>parts\<close> and then \<open>dir\<close> has a dot in its name or
  fails the finder's \<^verbatim>\<open>_looks_like_package\<close> (whatever node of that name the listing holds),
  then no name of the result stands for that directory or for a directory below it: the
  result is the list of the package names of \<open>found_dirs\<close>, and no chain in \<open>found_dirs\<close>
  starts with \<open>parts @ [dir]\<close>.
\<close>

theorem rejected_directory_is_not_entered:
  assumes "resolve fs where_path = Some where_dir"
    and "\<forall>n \<in> set (nodes_at where_dir (parts @ [dir])).
             CHR ''.'' \<in> set dir \<or> \<not> looks_like_package cls dir n"
  shows "find' (Packages cls) fs where_path exclude incl
           = map package (found_dirs cls where_dir exclude incl)
         \<and> (\<forall>q \<in> set (found_dirs cls where_dir exclude incl). \<not> prefix (parts @ [dir]) q)"
proof -
  have "\<not> prefix (parts @ [dir]) q" if q: "q \<in> set (found_dirs cls where_dir exclude incl)" for q
  proof
    assume "prefix (parts @ [dir]) q"
    then obtain more where "q = (parts @ [dir]) @ more" by (auto simp: prefix_def)
    with found_dirs_accepted [OF q] have "accepted_at cls where_dir ((parts @ [dir]) @ more)"
      by simp
    then have "accepted_at cls where_dir (parts @ [dir])" by (rule accepted_at_prefix)
    from accepted_at_snoc [OF this] assms(2) show False by blast
  qed
  then show ?thesis by (simp add: find'_found_dirs [OF assms(1)])
qed

text \<open>
  \<open>PackageFinder\<close> does not enter \<^verbatim>\<open>data\<close>, which has no \<^verbatim>\<open>__init__.py\<close>, and
  \<open>PEP420PackageFinder\<close> does not enter \<^verbatim>\<open>my.pkg\<close>.
\<close>

theorem rejected_directory_is_not_entered_witness:
  "resolve (at_root data_tree) [''root''] = Some data_tree
   \<and> nodes_at data_tree ([] @ [''data'']) = [Dir [(''inner'', Dir [(''__init__.py'', File)])]]
   \<and> \<not> looks_like_package PackageFinder ''data'' (Dir [(''inner'', Dir [(''__init__.py'', File)])])
   \<and> [''data'', ''inner''] \<notin> set (found_dirs PackageFinder data_tree [] [''*''])
   \<and> find' (Packages PackageFinder) (at_root data_tree) [''root''] [] [''*'']
       = map package (found_dirs PackageFinder data_tree [] [''*''])
   \<and> resolve (at_root dotted_tree) [''root''] = Some dotted_tree
   \<and> nodes_at dotted_tree ([] @ [''my.pkg''])
       = [Dir [(''__init__.py'', File), (''sub'', Dir [(''__init__.py'', File)])]]
   \<and> CHR ''.'' \<in> set ''my.pkg''
   \<and> [''my.pkg'', ''sub''] \<notin> set (found_dirs PEP420PackageFinder dotted_tree [] [''*''])"
proof -
  have r1: "resolve (at_root data_tree) [''root''] = Some data_tree"
    and r2: "resolve (at_root dotted_tree) [''root''] = Some dotted_tree"
    by (simp_all add: at_root_def)
  have n1: "nodes_at data_tree ([] @ [''data'']) = [Dir [(''inner'', Dir [(''__init__.py'', File)])]]"
    and l1: "\<not> looks_like_package PackageFinder ''data'' (Dir [(''inner'', Dir [(''__init__.py'', File)])])"
    and n2: "nodes_at dotted_tree ([] @ [''my.pkg''])
       = [Dir [(''__init__.py'', File), (''sub'', Dir [(''__init__.py'', File)])]]"
    and l2: "CHR ''.'' \<in> set ''my.pkg''"
    by code_simp+
  have h1: "\<forall>n \<in> set (nodes_at data_tree ([] @ [''data''])).
      CHR ''.'' \<in> set ''data'' \<or> \<not> looks_like_package PackageFinder ''data'' n"
    unfolding n1 using l1 by simp
  have h2: "\<forall>n \<in> set (nodes_at dotted_tree ([] @ [''my.pkg''])).
      CHR ''.'' \<in> set ''my.pkg'' \<or> \<not> looks_like_package PEP420PackageFinder ''my.pkg'' n"
    using l2 by blast
  have p1: "prefix ([] @ [''data'']) [''data'', ''inner'']"
    and p2: "prefix ([] @ [''my.pkg'']) [''my.pkg'', ''sub'']"
    by simp_all
  from rejected_directory_is_not_entered [OF r1 h1, of "[]" "[''*'']"] p1
  have a1: "[''data'', ''inner''] \<notin> set (found_dirs PackageFinder data_tree [] [''*''])"
    and e1: "find' (Packages PackageFinder) (at_root data_tree) [''root''] [] [''*'']
       = map package (found_dirs PackageFinder data_tree [] [''*''])"
    by blast+
  from rejected_directory_is_not_entered [OF r2 h2, of "[]" "[''*'']"] p2
  have a2: "[''my.pkg'', ''sub''] \<notin> set (found_dirs PEP420PackageFinder dotted_tree [] [''*''])"
    by blast
  from r1 n1 l1 a1 e1 r2 n2 l2 a2 show ?thesis by blast
qed

section \<open>The module finder does not ask whether an entry is a file\<close>

text \<open>
  C5. The claim that the module finder yields regular files only is not met by the code:
  \<^verbatim>\<open>glob\<close> returns every entry whose name matches \<open>*.py\<close>, and \<^verbatim>\<open>_find_iter\<close> never asks
  whether it is a file, so where \<^verbatim>\<open>root\<close> holds a directory \<^verbatim>\<open>pkg.py\<close> both module finders
  return \<open>pkg\<close>.
\<close>

theorem module_finder_yields_directory:
  "resolve (at_root module_dir_tree) [''root'', ''pkg.py''] = Some (Dir [(''__init__.py'', File)])
   \<and> find' (Modules ModuleFinder) (at_root module_dir_tree) [''root''] [] [''*''] = [''pkg'']
   \<and> find' (Modules FlatLayoutModuleFinder) (at_root module_dir_tree) [''root''] [] [''*'']
       = [''pkg'']"
  by code_simp

section \<open>The end-to-end example\<close>

text \<open>
  C6. On the tree \<^verbatim>\<open>pkg1/__init__.py\<close>, \<^verbatim>\<open>pkg1/sub/__init__.py\<close>, \<^verbatim>\<open>pkg2file.py\<close>,
  \<^verbatim>\<open>tests/__init__.py\<close> below \<^verbatim>\<open>root\<close>, \<open>PackageFinder.find\<close> with \<open>exclude = (''tests'',)\<close>
  returns \<open>pkg1\<close> and then \<open>pkg1.sub\<close>, and \<open>ModuleFinder.find\<close> returns \<open>pkg2file\<close> alone, in
  whichever of the two orders the directories are listed.
\<close>

theorem end_to_end_example:
  "find' (Packages PackageFinder) (at_root example_tree) [''root''] [''tests''] [''*'']
       = [''pkg1'', ''pkg1.sub'']
   \<and> find' (Modules ModuleFinder) (at_root example_tree) [''root''] [] [''*''] = [''pkg2file'']
   \<and> find' (Packages PackageFinder) (at_root example_tree_reversed) [''root''] [''tests''] [''*'']
       = [''pkg1'', ''pkg1.sub'']
   \<and> find' (Modules ModuleFinder) (at_root example_tree_reversed) [''root''] [] [''*'']
       = [''pkg2file'']"
  by code_simp

section \<open>Explicit excludes replace the defaults\<close>

text \<open>
  C7. For every finder: called with an empty exclude list, \<open>find\<close> returns the candidates
  that match the include patterns and match neither the always-excluded patterns nor the
  class's default exclusion table; called with a non-empty exclude list, it returns the
  candidates that match the include patterns and match neither the always-excluded
  patterns nor the caller's, and the default table plays no part.
\<close>

theorem explicit_exclude_replaces_default:
  "find' cls fs where_path [] incl =
     filter (\<lambda>p. build_filter incl p \<and> \<not> build_filter (ALWAYS_EXCLUDE cls) p
                  \<and> \<not> build_filter (DEFAULT_EXCLUDE cls) p)
       (candidates cls fs where_path)
   \<and> (exclude \<noteq> [] \<longrightarrow>
       find' cls fs where_path exclude incl =
         filter (\<lambda>p. build_filter incl p \<and> \<not> build_filter (ALWAYS_EXCLUDE cls) p
                      \<and> \<not> build_filter exclude p)
           (candidates cls fs where_path))"
  by (simp add: find'_filter_candidates combined_exclude_def build_filter_append)

text \<open>
  \<open>FlatLayoutPackageFinder\<close> on \<^verbatim>\<open>foo\<close>, \<^verbatim>\<open>mypkg\<close>, \<^verbatim>\<open>tests\<close>: with no exclude list \<open>tests\<close>,
  which is in the default table, is left out; with \<open>exclude = (''foo'',)\<close> it is returned.
\<close>

theorem explicit_exclude_replaces_default_witness:
  "[''foo''] \<noteq> []
   \<and> build_filter (DEFAULT_EXCLUDE (Packages FlatLayoutPackageFinder)) ''tests''
   \<and> candidates (Packages FlatLayoutPackageFinder) (at_root flat_tree) [''root'']
       = [''foo'', ''mypkg'', ''tests'']
   \<and> find' (Packages FlatLayoutPackageFinder) (at_root flat_tree) [''root''] [] [''*'']
       = [''foo'', ''mypkg'']
   \<and> find' (Packages FlatLayoutPackageFinder) (at_root flat_tree) [''root''] [''foo''] [''*'']
       = [''mypkg'', ''tests'']
   \<and> find' (Packages FlatLayoutPackageFinder) (at_root flat_tree) [''root''] [''foo''] [''*''] =
       filter (\<lambda>p. build_filter [''*''] p
                    \<and> \<not> build_filter (ALWAYS_EXCLUDE (Packages FlatLayoutPackageFinder)) p
                    \<and> \<not> build_filter [''foo''] p)
         (candidates (Packages FlatLayoutPackageFinder) (at_root flat_tree) [''root''])"
proof -
  have "build_filter (DEFAULT_EXCLUDE (Packages FlatLayoutPackageFinder)) ''tests''"
    "candidates (Packages FlatLayoutPackageFinder) (at_root flat_tree) [''root'']
       = [''foo'', ''mypkg'', ''tests'']"
    "find' (Packages FlatLayoutPackageFinder) (at_root flat_tree) [''root''] [] [''*'']
       = [''foo'', ''mypkg'']"
    "find' (Packages FlatLayoutPackageFinder) (at_root flat_tree) [''root''] [''foo''] [''*'']
       = [''mypkg'', ''tests'']"
    by code_simp+
  with explicit_exclude_replaces_default [of "Packages FlatLayoutPackageFinder"
      "at_root flat_tree" "[''root'']" "[''*'']" "[''foo'']"]
  show ?thesis by simp
qed

section \<open>An empty include list\<close>

text \<open>
  C8. Whatever the finder, the filesystem, \<^verbatim>\<open>where\<close> and the exclude list, \<open>find\<close> called with
  an empty include list returns the empty list: the filter built from no pattern accepts no
  name.
\<close>

theorem empty_include_finds_nothing: "find' cls fs where_path exclude [] = []"
proof -
  have "build_filter [] = (\<lambda>_. False)"
    by (simp add: build_filter_def)
  then show ?thesis
    unfolding find'_def Let_def
    by (subst find_iter_filter) simp
qed

section \<open>The module finder reads the root path as a pattern\<close>

text \<open>
  C9. The output contract is not met by the module finders when the path \<^verbatim>\<open>where\<close> holds a
  wildcard character: \<^verbatim>\<open>glob(os.path.join(where, "*.py"))\<close> expands \<^verbatim>\<open>where\<close> as a pattern. With
  an empty directory \<^verbatim>\<open>proj[12]\<close> beside \<^verbatim>\<open>proj1/mod.py\<close> and \<^verbatim>\<open>proj2/other.py\<close>,
  \<open>ModuleFinder.find\<close> called with \<^verbatim>\<open>where = 'proj[12]'\<close> returns \<open>mod\<close> and \<open>other\<close>, which
  name nothing below \<^verbatim>\<open>proj[12]\<close>.
\<close>

theorem module_finder_expands_root_as_pattern:
  "resolve bracket_root_fs [''proj[12]''] = Some (Dir [])
   \<and> find' (Modules ModuleFinder) bracket_root_fs [''proj[12]''] [] [''*''] = [''mod'', ''other'']
   \<and> nodes_at bracket_root_fs [''proj[12]'', ''mod.py''] = []
   \<and> nodes_at bracket_root_fs [''proj[12]'', ''other.py''] = []"
  by code_simp

section \<open>Patterns are matched against whole dotted names\<close>

text \<open>
  C10. For every package finder and every tree with a package \<^verbatim>\<open>foo\<close> directly below
  \<^verbatim>\<open>where\<close> and a package \<^verbatim>\<open>bar\<close> inside it, exclude and include patterns are matched
  against the whole dotted name. With \<open>exclude = (''foo'',)\<close> the result leaves out \<open>foo\<close> and
  holds \<open>foo.bar\<close>; with \<open>exclude = (''foo.*'',)\<close> it holds \<open>foo\<close> and leaves out \<open>foo.bar\<close>.
  With \<open>include = (''bar'',)\<close> it leaves out \<open>foo.bar\<close>; with \<open>include = (''foo.bar'',)\<close> it
  holds \<open>foo.bar\<close> and leaves out \<open>foo\<close>; with \<open>include = (''foo'',)\<close> it holds \<open>foo\<close> and leaves
  out \<open>foo.bar\<close>; with \<open>include = (''foo.*'',)\<close> it holds \<open>foo.bar\<close> and leaves out \<open>foo\<close>.
\<close>

theorem patterns_match_whole_names:
  assumes "resolve fs where_path = Some (Dir entries)"
    and "(''foo'', Dir foo_entries) \<in> set entries"
    and "looks_like_package cls ''foo'' (Dir foo_entries)"
    and "(''bar'', Dir bar_entries) \<in> set foo_entries"
    and "looks_like_package cls ''bar'' (Dir bar_entries)"
  shows "''foo'' \<notin> set (find' (Packages cls) fs where_path [''foo''] [''*''])
       \<and> ''foo.bar'' \<in> set (find' (Packages cls) fs where_path [''foo''] [''*''])
       \<and> ''foo'' \<in> set (find' (Packages cls) fs where_path [''foo.*''] [''*''])
       \<and> ''foo.bar'' \<notin> set (find' (Packages cls) fs where_path [''foo.*''] [''*''])
       \<and> ''foo.bar'' \<notin> set (find' (Packages cls) fs where_path [] [''bar''])
       \<and> ''foo.bar'' \<in> set (find' (Packages cls) fs where_path [] [''foo.bar''])
       \<and> ''foo'' \<notin> set (find' (Packages cls) fs where_path [] [''foo.bar''])
       \<and> ''foo'' \<in> set (find' (Packages cls) fs where_path [] [''foo''])
       \<and> ''foo.bar'' \<notin> set (find' (Packages cls) fs where_path [] [''foo''])
       \<and> ''foo.bar'' \<in> set (find' (Packages cls) fs where_path [] [''foo.*''])
       \<and> ''foo'' \<notin> set (find' (Packages cls) fs where_path [] [''foo.*''])"
proof -
  note r = assms(1)
  have foo: "package [''foo''] = ''foo''"
    by (simp add: package_single replace_def os_path_sep_def)
  have foobar: "package [''foo'', ''bar''] = ''foo.bar''"
    by (simp add: package_two replace_def os_path_sep_def)
  have acc_foo: "accepted_at cls (Dir entries) [''foo'']"
    by (rule accepted_at_ConsI [OF assms(2) _ _ assms(3)]) simp_all
  have acc_bar: "accepted_at cls (Dir foo_entries) [''bar'']"
    by (rule accepted_at_ConsI [OF assms(4) _ _ assms(5)]) simp_all
  have acc_foobar: "accepted_at cls (Dir entries) [''foo'', ''bar'']"
    by (rule accepted_at_ConsI [OF assms(2) _ _ assms(3) acc_bar]) simp_all
  have any: "build_filter [''*''] p" for p
    by (simp add: build_filter_def fnmatchcase_any)
  have ex1: "build_filter (combined_exclude (Packages cls) [''foo'']) p \<longleftrightarrow>
      p = ''ez_setup'' \<or> suffix ''__pycache__'' p \<or> p = ''foo''" for p
    by (simp add: build_filter_def combined_exclude_def fnmatchcase_ez_setup
        fnmatchcase_pycache fnmatchcase_foo)
  have ex2: "build_filter (combined_exclude (Packages cls) [''foo.*'']) p \<longleftrightarrow>
      p = ''ez_setup'' \<or> suffix ''__pycache__'' p \<or> prefix ''foo.'' p" for p
    by (simp add: build_filter_def combined_exclude_def fnmatchcase_ez_setup
        fnmatchcase_pycache fnmatchcase_foo_star)
  have nsuf: "\<not> suffix ''__pycache__'' ''foo''" "\<not> suffix ''__pycache__'' ''foo.bar''"
    by (auto simp: suffix_def)
  have "\<not> build_filter (combined_exclude (Packages PackageFinder) []) ''foo''
      \<and> \<not> build_filter (combined_exclude (Packages PackageFinder) []) ''foo.bar''"
    "\<not> build_filter (combined_exclude (Packages PEP420PackageFinder) []) ''foo''
      \<and> \<not> build_filter (combined_exclude (Packages PEP420PackageFinder) []) ''foo.bar''"
    "\<not> build_filter (combined_exclude (Packages FlatLayoutPackageFinder) []) ''foo''
      \<and> \<not> build_filter (combined_exclude (Packages FlatLayoutPackageFinder) []) ''foo.bar''"
    by code_simp+
  then have ex0: "\<not> build_filter (combined_exclude (Packages cls) []) ''foo''"
    "\<not> build_filter (combined_exclude (Packages cls) []) ''foo.bar''"
    by (cases cls; blast)+
  have inc_bar: "\<not> build_filter [''bar''] ''foo.bar''"
    and inc_foobar: "build_filter [''foo.bar''] ''foo.bar''" "\<not> build_filter [''foo.bar''] ''foo''"
    and inc_foo: "build_filter [''foo''] ''foo''" "\<not> build_filter [''foo''] ''foo.bar''"
    and inc_star: "build_filter [''foo.*''] ''foo.bar''" "\<not> build_filter [''foo.*''] ''foo''"
    by (simp_all add: build_filter_def fnmatchcase_def)
  have 1: "''foo'' \<notin> set (find' (Packages cls) fs where_path [''foo''] [''*''])"
    using find'_passes_filters [of "''foo''" "Packages cls" fs where_path "[''foo'']" "[''*'']"]
    by (auto simp: ex1)
  have 2: "''foo.bar'' \<in> set (find' (Packages cls) fs where_path [''foo''] [''*''])"
    unfolding find'_packages_iff [OF r]
    by (rule exI [of _ "[''foo'', ''bar'']"])
      (use acc_foobar in \<open>simp add: foobar any ex1 nsuf del: accepted_at.simps\<close>)
  have 3: "''foo'' \<in> set (find' (Packages cls) fs where_path [''foo.*''] [''*''])"
    unfolding find'_packages_iff [OF r]
    by (rule exI [of _ "[''foo'']"])
      (use acc_foo in \<open>simp add: foo any ex2 nsuf del: accepted_at.simps\<close>)
  have 4: "''foo.bar'' \<notin> set (find' (Packages cls) fs where_path [''foo.*''] [''*''])"
    using find'_passes_filters [of "''foo.bar''" "Packages cls" fs where_path "[''foo.*'']" "[''*'']"]
    by (auto simp: ex2)
  have 5: "''foo.bar'' \<notin> set (find' (Packages cls) fs where_path [] [''bar''])"
    using find'_passes_filters [of "''foo.bar''" "Packages cls" fs where_path "[]" "[''bar'']"]
      inc_bar by blast
  have 6: "''foo.bar'' \<in> set (find' (Packages cls) fs where_path [] [''foo.bar''])"
    unfolding find'_packages_iff [OF r]
    by (rule exI [of _ "[''foo'', ''bar'']"])
      (use acc_foobar in \<open>simp add: foobar inc_foobar ex0 del: accepted_at.simps\<close>)
  have 7: "''foo'' \<notin> set (find' (Packages cls) fs where_path [] [''foo.bar''])"
    using find'_passes_filters [of "''foo''" "Packages cls" fs where_path "[]" "[''foo.bar'']"]
      inc_foobar by blast
  have 8: "''foo'' \<in> set (find' (Packages cls) fs where_path [] [''foo''])"
    unfolding find'_packages_iff [OF r]
    by (rule exI [of _ "[''foo'']"])
      (use acc_foo in \<open>simp add: foo inc_foo ex0 del: accepted_at.simps\<close>)
  have 9: "''foo.bar'' \<notin> set (find' (Packages cls) fs where_path [] [''foo''])"
    using find'_passes_filters [of "''foo.bar''" "Packages cls" fs where_path "[]" "[''foo'']"]
      inc_foo by blast
  have 10: "''foo.bar'' \<in> set (find' (Packages cls) fs where_path [] [''foo.*''])"
    unfolding find'_packages_iff [OF r]
    by (rule exI [of _ "[''foo'', ''bar'']"])
      (use acc_foobar in \<open>simp add: foobar inc_star ex0 del: accepted_at.simps\<close>)
  have 11: "''foo'' \<notin> set (find' (Packages cls) fs where_path [] [''foo.*''])"
    using find'_passes_filters [of "''foo''" "Packages cls" fs where_path "[]" "[''foo.*'']"]
      inc_star by blast
  from 1 2 3 4 5 6 7 8 9 10 11 show ?thesis by blast
qed

text \<open>The three package finders on \<^verbatim>\<open>foo/__init__.py\<close>, \<^verbatim>\<open>foo/bar/__init__.py\<close>.\<close>

theorem patterns_match_whole_names_witness:
  "resolve (at_root foo_tree) [''root'']
      = Some (Dir [(''foo'', Dir [(''__init__.py'', File), (''bar'', Dir [(''__init__.py'', File)])])])
   \<and> looks_like_package PackageFinder ''foo''
        (Dir [(''__init__.py'', File), (''bar'', Dir [(''__init__.py'', File)])])
   \<and> looks_like_package PackageFinder ''bar'' (Dir [(''__init__.py'', File)])
   \<and> ''foo'' \<notin> set (find' (Packages PackageFinder) (at_root foo_tree) [''root''] [''foo''] [''*''])
   \<and> ''foo.bar'' \<in> set (find' (Packages PackageFinder) (at_root foo_tree) [''root''] [''foo''] [''*''])
   \<and> ''foo.bar'' \<in> set (find' (Packages PEP420PackageFinder) (at_root foo_tree) [''root''] [''foo''] [''*''])
   \<and> ''foo.bar'' \<in> set (find' (Packages FlatLayoutPackageFinder) (at_root foo_tree) [''root''] [''foo''] [''*''])
   \<and> ''foo.bar'' \<notin> set (find' (Packages PackageFinder) (at_root foo_tree) [''root''] [''foo.*''] [''*''])
   \<and> ''foo.bar'' \<notin> set (find' (Packages PackageFinder) (at_root foo_tree) [''root''] [] [''bar''])
   \<and> ''foo.bar'' \<in> set (find' (Packages PackageFinder) (at_root foo_tree) [''root''] [] [''foo.bar''])
   \<and> ''foo.bar'' \<notin> set (find' (Packages FlatLayoutPackageFinder) (at_root foo_tree) [''root''] [] [''bar''])
   \<and> ''foo.bar'' \<in> set (find' (Packages FlatLayoutPackageFinder) (at_root foo_tree) [''root''] [] [''foo.bar''])"
proof -
  let ?bar = "[(''__init__.py'', File)]"
  let ?foo = "[(''__init__.py'', File), (''bar'', Dir ?bar)]"
  have r: "resolve (at_root foo_tree) [''root''] = Some (Dir [(''foo'', Dir ?foo)])"
    by (simp add: at_root_def foo_tree_def)
  have m1: "(''foo'', Dir ?foo) \<in> set [(''foo'', Dir ?foo)]"
    and m2: "(''bar'', Dir ?bar) \<in> set ?foo"
    by simp_all
  have l: "looks_like_package PackageFinder ''foo'' (Dir ?foo)"
    "looks_like_package PackageFinder ''bar'' (Dir ?bar)"
    "looks_like_package PEP420PackageFinder ''foo'' (Dir ?foo)"
    "looks_like_package PEP420PackageFinder ''bar'' (Dir ?bar)"
    "looks_like_package FlatLayoutPackageFinder ''foo'' (Dir ?foo)"
    "looks_like_package FlatLayoutPackageFinder ''bar'' (Dir ?bar)"
    by code_simp+
  from patterns_match_whole_names [OF r m1 l(1) m2 l(2)]
    patterns_match_whole_names [OF r m1 l(3) m2 l(4)]
    patterns_match_whole_names [OF r m1 l(5) m2 l(6)]
    r l
  show ?thesis by blast
qed

end
